theory Spec2Isabelle
  imports Main
begin

section \<open>Data model\<close>

text \<open>
  A Python \<open>str\<close> is a sequence of Unicode code points.  Code points are natural
  numbers; a well-formed string only holds code points below \<open>0x110000\<close>.
  The function \<open>str\<close> writes an ASCII literal as such a sequence.
\<close>

type_synonym codepoint = nat
type_synonym pystr = "codepoint list"

definition str :: "string \<Rightarrow> pystr" where
  "str s = map of_char s"

definition valid_str :: "pystr \<Rightarrow> bool" where
  "valid_str s = list_all (\<lambda>c. c < 0x110000) s"

text \<open>
  Mutable Python objects (the \<open>meta\<close> dictionary and the \<open>postings\<close> list of a
  transaction) live in a store and are named by references, so that two values holding
  the same reference see each other's updates, as two Python names bound to one object do.
\<close>

type_synonym ref = nat

datatype meta_value = MetaStr pystr | MetaInt int | MetaBool bool

type_synonym pydict = "pystr \<rightharpoonup> meta_value"

record pydate =
  year :: int
  month :: int
  day :: int

text \<open>
  \<open>Amount\<close> keeps a number and a currency; the decimal number is held as an integer,
  since no operation of the module reads it.
\<close>

datatype amount = Amount int pystr

text \<open>
  \<open>Posting(account, units, cost, price, flag, meta)\<close>: an immutable named tuple.
  Every field but the account may be \<open>None\<close>.
\<close>

datatype posting =
  Posting (account: pystr) (units: "amount option") (cost: "amount option")
    (price: "amount option") (posting_flag: "pystr option") (posting_meta: "ref option")

text \<open>
  \<open>Transaction(meta, date, flag, payee, narration, tags, links, postings)\<close>: an
  immutable named tuple whose \<open>meta\<close> and \<open>postings\<close> fields refer to a mutable
  dictionary and a mutable list.
\<close>

record transaction =
  meta :: ref
  date :: pydate
  flag :: pystr
  payee :: "pystr option"
  narration :: pystr
  tags :: "pystr list"
  links :: "pystr list"
  postings :: ref

record store =
  dicts :: "ref \<Rightarrow> pydict"
  plists :: "ref \<Rightarrow> posting list"

text \<open>Ledger entries: transactions and the other directive kinds.\<close>

datatype entry =
  Transaction transaction
| Open pydate pystr
| Close pydate pystr
| Note pydate pystr pystr
| Balance pydate pystr amount
| Price pydate pystr amount

fun isinstance_Transaction :: "entry \<Rightarrow> bool" where
  "isinstance_Transaction (Transaction t) = True"
| "isinstance_Transaction e = False"

datatype error =
  StopIteration | IndexError | KeyError | TypeError | AttributeError | LoadError | JSONDecodeError

section \<open>Entry merger\<close>

text \<open>
  \<open>merge_non_transaction_entries\<close>: the loop over \<open>imported_entries\<close> with the list
  \<open>enhanced_entries\<close> being built and the iterator over \<open>enhanced_transactions\<close>
  (the elements not yet consumed).  \<open>next\<close> on an exhausted iterator raises
  \<open>StopIteration\<close>.
\<close>

fun merge_loop :: "entry list \<Rightarrow> entry list \<Rightarrow> entry list \<Rightarrow> error + entry list" where
  "merge_loop enhanced_entries it [] = Inr enhanced_entries"
| "merge_loop enhanced_entries it (entry # rest) =
     (if isinstance_Transaction entry then
        (case it of
           [] \<Rightarrow> Inl StopIteration
         | x # it' \<Rightarrow> merge_loop (enhanced_entries @ [x]) it' rest)
      else merge_loop (enhanced_entries @ [entry]) it rest)"

definition merge_non_transaction_entries :: "entry list \<Rightarrow> entry list \<Rightarrow> error + entry list" where
  "merge_non_transaction_entries imported_entries enhanced_transactions =
     merge_loop [] enhanced_transactions imported_entries"

text \<open>The number of transaction-kind entries of a sequence.\<close>

definition count_txns :: "entry list \<Rightarrow> nat" where
  "count_txns entries = length (filter isinstance_Transaction entries)"

text \<open>
  The merge as the specification words it: walk the original sequence, substitute the
  next transformed item for a transaction, keep any other entry.
\<close>

fun interleave_spec :: "entry list \<Rightarrow> entry list \<Rightarrow> entry list" where
  "interleave_spec [] enh = []"
| "interleave_spec (e # es) enh =
     (if isinstance_Transaction e then hd enh # interleave_spec es (tl enh)
      else e # interleave_spec es enh)"

section \<open>Corpus loader\<close>

text \<open>
  The value passed as \<open>training_data\<close>: \<open>None\<close>, a list of entries or a string (a
  file name).  Python's truth value of each: \<open>None\<close>, the empty list and the empty
  string are false.
\<close>

datatype training_data = DataNone | DataList "entry list" | DataStr pystr

fun truthy_data :: "training_data \<Rightarrow> bool" where
  "truthy_data DataNone = False"
| "truthy_data (DataList xs) = (xs \<noteq> [])"
| "truthy_data (DataStr p) = (p \<noteq> [])"

fun truthy_list :: "'a list option \<Rightarrow> bool" where
  "truthy_list None = False"
| "truthy_list (Some xs) = (xs \<noteq> [])"

text \<open>\<open>filter_txns\<close> of the ledger library: the entries that are transactions.\<close>

definition filter_txns :: "entry list \<Rightarrow> entry list" where
  "filter_txns entries = filter isinstance_Transaction entries"

text \<open>
  \<open>any([pos.account == known_account for pos in txn.postings])\<close>.  Only a transaction
  has the attribute \<open>postings\<close>.
\<close>

fun involves_account :: "store \<Rightarrow> pystr \<Rightarrow> entry \<Rightarrow> error + bool" where
  "involves_account s known_account (Transaction txn) =
     Inr (list_ex (\<lambda>pos. account pos = known_account) (plists s (postings txn)))"
| "involves_account s known_account e = Inl AttributeError"

fun filter_account :: "store \<Rightarrow> pystr \<Rightarrow> entry list \<Rightarrow> error + entry list" where
  "filter_account s known_account [] = Inr []"
| "filter_account s known_account (txn # rest) =
     (case involves_account s known_account txn of
        Inl e \<Rightarrow> Inl e
      | Inr keep \<Rightarrow>
          (case filter_account s known_account rest of
             Inl e \<Rightarrow> Inl e
           | Inr out \<Rightarrow> Inr (if keep then txn # out else out)))"

text \<open>
  \<open>load_training_data\<close>.  The file loader of the ledger library is the parameter
  \<open>load_file\<close> (the entries it returns, or the error it raises).  The three steps of the
  body are the source's three \<open>if\<close> statements; the value of the variable
  \<open>training_data\<close> after the first one is \<open>None\<close> or a list.
\<close>

definition resolve_source ::
  "(pystr \<Rightarrow> error + entry list) \<Rightarrow> training_data \<Rightarrow> entry list option \<Rightarrow>
   error + entry list option" where
  "resolve_source load_file training_data existing_entries =
     (if \<not> truthy_data training_data \<and> truthy_list existing_entries then Inr existing_entries
      else
        (case training_data of
           DataStr path \<Rightarrow>
             (case load_file path of Inl e \<Rightarrow> Inl e | Inr entries \<Rightarrow> Inr (Some entries))
         | DataList xs \<Rightarrow> Inr (Some xs)
         | DataNone \<Rightarrow> Inr None))"

definition keep_txns :: "entry list option \<Rightarrow> entry list option" where
  "keep_txns training_data =
     (if truthy_list training_data then map_option filter_txns training_data
      else training_data)"

fun restrict_account ::
  "store \<Rightarrow> pystr option \<Rightarrow> entry list option \<Rightarrow> error + entry list option" where
  "restrict_account s None training_data = Inr training_data"
| "restrict_account s (Some known_account) training_data =
     (if known_account \<noteq> [] then
        (case training_data of
           None \<Rightarrow> Inl TypeError
         | Some xs \<Rightarrow>
             (case filter_account s known_account xs of
                Inl e \<Rightarrow> Inl e
              | Inr out \<Rightarrow> Inr (Some out)))
      else Inr training_data)"

definition load_training_data ::
  "(pystr \<Rightarrow> error + entry list) \<Rightarrow> store \<Rightarrow> training_data \<Rightarrow> pystr option \<Rightarrow>
   entry list option \<Rightarrow> error + entry list option" where
  "load_training_data load_file s training_data known_account existing_entries =
     (case resolve_source load_file training_data existing_entries of
        Inl e \<Rightarrow> Inl e
      | Inr resolved \<Rightarrow> restrict_account s known_account (keep_txns resolved))"

text \<open>
  The account filter as the specification words it: an entry passes when it is a
  transaction with at least one posting on the account.
\<close>

definition touches_account :: "store \<Rightarrow> pystr \<Rightarrow> entry \<Rightarrow> bool" where
  "touches_account s a e =
     (case e of
        Transaction t \<Rightarrow> list_ex (\<lambda>pos. account pos = a) (plists s (postings t))
      | _ \<Rightarrow> False)"

section \<open>Posting normalizer\<close>

text \<open>
  \<open>add_posting_to_transaction\<close> appends to the list object that
  \<open>transaction.postings\<close> refers to, and returns the transaction it was given.
\<close>

definition add_posting_to_transaction ::
  "store \<Rightarrow> transaction \<Rightarrow> pystr \<Rightarrow> transaction \<times> store" where
  "add_posting_to_transaction s transaction acct =
     (if length (plists s (postings transaction)) \<noteq> 1 then (transaction, s)
      else
        (let additional_posting = Posting acct None None None None None
         in (transaction,
             s\<lparr>plists := (plists s)
                  (postings transaction :=
                     plists s (postings transaction) @ [additional_posting])\<rparr>)))"

section \<open>Metadata annotator\<close>

text \<open>
  \<open>add_payee_to_transaction\<close>: \<open>not transaction.payee\<close> holds when the payee is
  \<open>None\<close> or the empty string.  \<open>_replace\<close> builds a new tuple, so no object of
  the store changes.
\<close>

definition add_payee_to_transaction :: "transaction \<Rightarrow> pystr \<Rightarrow> bool \<Rightarrow> transaction" where
  "add_payee_to_transaction transaction p overwrite =
     (if \<not> truthy_list (payee transaction) \<or> overwrite then transaction\<lparr>payee := Some p\<rparr>
      else transaction)"

definition METADATA_KEY_SUGGESTED_ACCOUNTS :: pystr where
  "METADATA_KEY_SUGGESTED_ACCOUNTS = str ''__suggested_accounts__''"

definition METADATA_KEY_SUGGESTED_PAYEES :: pystr where
  "METADATA_KEY_SUGGESTED_PAYEES = str ''__suggested_payees__''"

section \<open>JSON text of a list of strings\<close>

text \<open>
  \<open>json.dumps\<close> of the standard library with its default arguments, on a list of
  strings: every string is written by \<open>encode_basestring_ascii\<close>, the items are joined
  by a comma and a space and put in brackets.  A character other than a printable ASCII
  character, and the quotation mark and the backslash, are escaped; a code point from
  \<open>0x10000\<close> on is written as a surrogate pair (\<open>n >> 10\<close> is \<open>n div 1024\<close>,
  \<open>n & 0x3ff\<close> is \<open>n mod 1024\<close>, and \<open>0xd800 | x\<close> is \<open>0xd800 + x\<close> for
  \<open>x < 1024\<close>).
\<close>

definition hexdigit :: "nat \<Rightarrow> codepoint" where
  "hexdigit d = (if d < 10 then 0x30 + d else 0x57 + d)"

definition hex4 :: "nat \<Rightarrow> pystr" where
  "hex4 n = [hexdigit (n div 4096 mod 16), hexdigit (n div 256 mod 16),
             hexdigit (n div 16 mod 16), hexdigit (n mod 16)]"

definition u_escape :: "nat \<Rightarrow> pystr" where
  "u_escape n = [0x5C, 0x75] @ hex4 n"

definition escape_char :: "codepoint \<Rightarrow> pystr" where
  "escape_char c =
     (if c = 0x5C then [0x5C, 0x5C]
      else if c = 0x22 then [0x5C, 0x22]
      else if c = 0x08 then [0x5C, 0x62]
      else if c = 0x0C then [0x5C, 0x66]
      else if c = 0x0A then [0x5C, 0x6E]
      else if c = 0x0D then [0x5C, 0x72]
      else if c = 0x09 then [0x5C, 0x74]
      else if 0x20 \<le> c \<and> c \<le> 0x7E then [c]
      else if c < 0x10000 then u_escape c
      else
        (let n = c - 0x10000;
             s1 = 0xD800 + (n div 1024) mod 1024;
             s2 = 0xDC00 + n mod 1024
         in u_escape s1 @ u_escape s2))"

definition encode_basestring_ascii :: "pystr \<Rightarrow> pystr" where
  "encode_basestring_ascii s = [0x22] @ concat (map escape_char s) @ [0x22]"

fun join_items :: "pystr list \<Rightarrow> pystr" where
  "join_items [] = []"
| "join_items [x] = x"
| "join_items (x # y # ys) = x @ [0x2C, 0x20] @ join_items (y # ys)"

definition json_dumps :: "pystr list \<Rightarrow> pystr" where
  "json_dumps suggestions =
     [0x5B] @ join_items (map encode_basestring_ascii suggestions) @ [0x5D]"

text \<open>
  \<open>json.loads\<close> of the standard library on a document that is an array of strings.
  \<open>scanstring\<close> reads a string body up to its closing quotation mark and returns the
  rest of the text; a \<open>\\u\<close> escape of a high surrogate that is followed by a
  \<open>\\u\<close> escape of a low surrogate is read as the one code point the pair stands for.
  A document whose values are not all strings is outside this model: the result is then
  \<open>Inl JSONDecodeError\<close>, as it is for a text that is not JSON at all.
\<close>

definition unhex :: "codepoint \<Rightarrow> nat option" where
  "unhex c =
     (if 0x30 \<le> c \<and> c \<le> 0x39 then Some (c - 0x30)
      else if 0x61 \<le> c \<and> c \<le> 0x66 then Some (c - 0x57)
      else if 0x41 \<le> c \<and> c \<le> 0x46 then Some (c - 0x37)
      else None)"

fun decode_uXXXX :: "pystr \<Rightarrow> nat option" where
  "decode_uXXXX (a # b # c # d # rest) =
     (case (unhex a, unhex b, unhex c, unhex d) of
        (Some x3, Some x2, Some x1, Some x0) \<Rightarrow> Some (((x3 * 16 + x2) * 16 + x1) * 16 + x0)
      | _ \<Rightarrow> None)"
| "decode_uXXXX s = None"

definition BACKSLASH :: "codepoint \<Rightarrow> codepoint option" where
  "BACKSLASH e =
     (if e = 0x22 then Some 0x22
      else if e = 0x5C then Some 0x5C
      else if e = 0x2F then Some 0x2F
      else if e = 0x62 then Some 0x08
      else if e = 0x66 then Some 0x0C
      else if e = 0x6E then Some 0x0A
      else if e = 0x72 then Some 0x0D
      else if e = 0x74 then Some 0x09
      else None)"

definition is_high_surrogate :: "nat \<Rightarrow> bool" where
  "is_high_surrogate u = (0xD800 \<le> u \<and> u \<le> 0xDBFF)"

definition is_low_surrogate :: "nat \<Rightarrow> bool" where
  "is_low_surrogate u = (0xDC00 \<le> u \<and> u \<le> 0xDFFF)"

definition join_surrogates :: "nat \<Rightarrow> nat \<Rightarrow> codepoint" where
  "join_surrogates u u2 = 0x10000 + ((u - 0xD800) * 1024 + (u2 - 0xDC00))"

fun push_char :: "codepoint \<Rightarrow> error + pystr \<times> pystr \<Rightarrow> error + pystr \<times> pystr" where
  "push_char c (Inl e) = Inl e"
| "push_char c (Inr (chunks, rest)) = Inr (c # chunks, rest)"

fun scanstring :: "pystr \<Rightarrow> error + pystr \<times> pystr" where
  "scanstring [] = Inl JSONDecodeError"
| "scanstring (c # cs) =
     (if c = 0x22 then Inr ([], cs)
      else if c = 0x5C then
        (case cs of
           [] \<Rightarrow> Inl JSONDecodeError
         | esc # es \<Rightarrow>
             if esc \<noteq> 0x75 then
               (case BACKSLASH esc of
                  None \<Rightarrow> Inl JSONDecodeError
                | Some ch \<Rightarrow> push_char ch (scanstring es))
             else
               (case decode_uXXXX es of
                  None \<Rightarrow> Inl JSONDecodeError
                | Some uni \<Rightarrow>
                    if is_high_surrogate uni \<and> take 2 (drop 4 es) = [0x5C, 0x75] then
                      (case decode_uXXXX (drop 6 es) of
                         None \<Rightarrow> Inl JSONDecodeError
                       | Some uni2 \<Rightarrow>
                           if is_low_surrogate uni2
                           then push_char (join_surrogates uni uni2) (scanstring (drop 10 es))
                           else push_char uni (scanstring (drop 4 es)))
                    else push_char uni (scanstring (drop 4 es))))
      else if c < 0x20 then Inl JSONDecodeError
      else push_char c (scanstring cs))"

text \<open>A successful \<open>scanstring\<close> consumes at least the closing quotation mark.\<close>

lemma push_char_Inr:
  "push_char c r = Inr (v, rest) \<Longrightarrow> \<exists>v'. r = Inr (v', rest) \<and> v = c # v'"
  by (cases r) auto

lemma scanstring_shorter: "scanstring s = Inr (v, rest) \<Longrightarrow> length rest < length s"
proof (induction "length s" arbitrary: s v rest rule: less_induct)
  case less
  show ?case
  proof (cases s)
    case Nil
    with less.prems show ?thesis by simp
  next
    case (Cons c cs)
    have ih: "length r < length s'"
      if "scanstring s' = Inr (v', r)" and "length s' \<le> length cs" for s' v' r
    proof -
      from that(2) Cons have "length s' < length s" by simp
      from less.hyps [OF this that(1)] show ?thesis .
    qed
    from less.prems Cons show ?thesis
      by (auto split: if_splits list.splits option.splits dest!: push_char_Inr dest: ih)
  qed
qed

text \<open>
  The whitespace the decoder skips, and the items of a non-empty array: a string, then
  \<open>]\<close> or a comma and the next item.  \<open>JSONArray\<close> reads the text after the opening
  bracket; \<open>json_loads\<close> reads a whole document and refuses text after the array.
\<close>

definition is_ws :: "codepoint \<Rightarrow> bool" where
  "is_ws c = (c = 0x20 \<or> c = 0x09 \<or> c = 0x0A \<or> c = 0x0D)"

definition skip_ws :: "pystr \<Rightarrow> pystr" where
  "skip_ws s = dropWhile is_ws s"

function parse_items :: "pystr \<Rightarrow> error + pystr list \<times> pystr" where
  "parse_items [] = Inl JSONDecodeError"
| "parse_items (q # body) =
     (if q \<noteq> 0x22 then Inl JSONDecodeError
      else
        (case scanstring body of
           Inl e \<Rightarrow> Inl e
         | Inr (v, after) \<Rightarrow>
             (case skip_ws after of
                [] \<Rightarrow> Inl JSONDecodeError
              | nextchar # after' \<Rightarrow>
                  if nextchar = 0x5D then Inr ([v], after')
                  else if nextchar \<noteq> 0x2C then Inl JSONDecodeError
                  else
                    (case parse_items (skip_ws after') of
                       Inl e \<Rightarrow> Inl e
                     | Inr (vs, rest) \<Rightarrow> Inr (v # vs, rest)))))"
  by pat_completeness auto
termination
proof (relation "measure length")
  show "wf (measure length)" by simp
next
  fix q :: codepoint and body x2 v after nextchar after'
  assume a: "scanstring body = Inr x2" "(v, after) = x2" "skip_ws after = nextchar # after'"
  from a(1,2) have "length after < length body"
    by (auto dest: scanstring_shorter)
  moreover have "length (skip_ws after) \<le> length after"
    by (simp add: skip_ws_def length_dropWhile_le)
  moreover have "length (skip_ws after') \<le> length after'"
    by (simp add: skip_ws_def length_dropWhile_le)
  ultimately show "(skip_ws after', q # body) \<in> measure length"
    using a(3) by simp
qed

definition JSONArray :: "pystr \<Rightarrow> error + pystr list \<times> pystr" where
  "JSONArray s =
     (case skip_ws s of
        [] \<Rightarrow> Inl JSONDecodeError
      | nextchar # rest \<Rightarrow>
          if nextchar = 0x5D then Inr ([], rest) else parse_items (nextchar # rest))"

definition json_loads :: "pystr \<Rightarrow> error + pystr list" where
  "json_loads s =
     (case skip_ws s of
        [] \<Rightarrow> Inl JSONDecodeError
      | c # body \<Rightarrow>
          if c \<noteq> 0x5B then Inl JSONDecodeError
          else
            (case JSONArray body of
               Inl e \<Rightarrow> Inl e
             | Inr (values, rest) \<Rightarrow>
                 if skip_ws rest = [] then Inr values else Inl JSONDecodeError))"

text \<open>
  A string has no surrogate pair when no high surrogate in it is immediately followed by
  a low surrogate.  \<open>safe_after\<close> says of the text that follows an escaped high
  surrogate that the scanner will not join it to that surrogate.
\<close>

fun no_surrogate_pair :: "pystr \<Rightarrow> bool" where
  "no_surrogate_pair (c # d # cs) =
     (\<not> (is_high_surrogate c \<and> is_low_surrogate d) \<and> no_surrogate_pair (d # cs))"
| "no_surrogate_pair cs = True"

definition safe_after :: "pystr \<Rightarrow> bool" where
  "safe_after Y =
     (take 2 Y = [0x5C, 0x75] \<longrightarrow>
        (\<exists>u. decode_uXXXX (drop 2 Y) = Some u \<and> \<not> is_low_surrogate u))"

section \<open>Suggestion metadata\<close>

text \<open>
  \<open>_add_suggestions_to_transaction\<close>: the assignment \<open>meta[key] = ...\<close> updates the
  dictionary object that \<open>transaction.meta\<close> refers to; \<open>_replace(meta=meta)\<close> then
  builds a tuple whose \<open>meta\<close> field is that same reference.
\<close>

definition add_suggestions_to_transaction ::
  "store \<Rightarrow> transaction \<Rightarrow> pystr list \<Rightarrow> pystr \<Rightarrow> transaction \<times> store" where
  "add_suggestions_to_transaction s transaction suggestions key =
     (let m = meta transaction;
          s' = s\<lparr>dicts := (dicts s)(m := (dicts s m)(key \<mapsto> MetaStr (json_dumps suggestions)))\<rparr>
      in (transaction\<lparr>meta := m\<rparr>, s'))"

definition add_suggested_accounts_to_transaction ::
  "store \<Rightarrow> transaction \<Rightarrow> pystr list \<Rightarrow> transaction \<times> store" where
  "add_suggested_accounts_to_transaction s transaction suggestions =
     add_suggestions_to_transaction s transaction suggestions METADATA_KEY_SUGGESTED_ACCOUNTS"

definition add_suggested_payees_to_transaction ::
  "store \<Rightarrow> transaction \<Rightarrow> pystr list \<Rightarrow> transaction \<times> store" where
  "add_suggested_payees_to_transaction s transaction suggestions =
     add_suggestions_to_transaction s transaction suggestions METADATA_KEY_SUGGESTED_PAYEES"

text \<open>
  Reading the suggestions back: the entry of the transaction's \<open>meta\<close> dictionary under
  a key, parsed as JSON.  A missing key raises \<open>KeyError\<close>, an entry that is not a
  string \<open>TypeError\<close>.
\<close>

definition read_suggestions :: "store \<Rightarrow> transaction \<Rightarrow> pystr \<Rightarrow> error + pystr list" where
  "read_suggestions s transaction key =
     (case dicts s (meta transaction) key of
        None \<Rightarrow> Inl KeyError
      | Some (MetaStr text) \<Rightarrow> json_loads text
      | Some other \<Rightarrow> Inl TypeError)"

section \<open>Field-extraction adapters\<close>

text \<open>
  \<open>TxnPostingAccount(txn, posting, account)\<close>; the third field is named
  \<open>tpa_account\<close> here, apart from the \<open>account\<close> of a posting.  An element handed to
  an adapter is a transaction, such a triple, or an object of another type.
\<close>

datatype txn_posting_account =
  TxnPostingAccount (txn: transaction) (posting: posting) (tpa_account: pystr)

datatype element =
  ElemTransaction transaction
| ElemTxnPostingAccount txn_posting_account
| ElemPosting posting
| ElemStr pystr
| ElemInt int
| ElemNone

text \<open>\<open>x or ''\<close> for an optional string \<open>x\<close>.\<close>

fun or_empty :: "pystr option \<Rightarrow> pystr" where
  "or_empty None = []"
| "or_empty (Some x) = (if x \<noteq> [] then x else [])"

text \<open>
  The value a method returns is \<open>Some\<close> of it; \<open>None\<close> is Python's \<open>None\<close>, which a
  method returns when its body ends without a \<open>return\<close>.
\<close>

fun GetPayee_get_payee :: "element \<Rightarrow> pystr option" where
  "GetPayee_get_payee (ElemTransaction d) = Some (or_empty (payee d))"
| "GetPayee_get_payee (ElemTxnPostingAccount d) = Some (or_empty (payee (txn d)))"
| "GetPayee_get_payee d = None"

definition GetPayee_transform :: "element list \<Rightarrow> pystr option list" where
  "GetPayee_transform data = map GetPayee_get_payee data"

fun GetNarration_get_narration :: "element \<Rightarrow> pystr option" where
  "GetNarration_get_narration (ElemTransaction d) = Some (narration d)"
| "GetNarration_get_narration (ElemTxnPostingAccount d) = Some (narration (txn d))"
| "GetNarration_get_narration d = None"

definition GetNarration_transform :: "element list \<Rightarrow> pystr option list" where
  "GetNarration_transform data = map GetNarration_get_narration data"

fun GetDayOfMonth_get_day_of_month :: "element \<Rightarrow> int option" where
  "GetDayOfMonth_get_day_of_month (ElemTransaction d) = Some (day (date d))"
| "GetDayOfMonth_get_day_of_month (ElemTxnPostingAccount d) = Some (day (date (txn d)))"
| "GetDayOfMonth_get_day_of_month d = None"

definition GetDayOfMonth_transform :: "element list \<Rightarrow> int option list" where
  "GetDayOfMonth_transform data = map GetDayOfMonth_get_day_of_month data"

text \<open>
  \<open>d.postings[-1]\<close> and \<open>d.postings[0]\<close> raise \<open>IndexError\<close> on an empty list.  A list
  comprehension stops at the first element whose projection raises.
\<close>

fun comprehension :: "('a \<Rightarrow> error + 'b) \<Rightarrow> 'a list \<Rightarrow> error + 'b list" where
  "comprehension f [] = Inr []"
| "comprehension f (d # data) =
     (case f d of
        Inl e \<Rightarrow> Inl e
      | Inr y \<Rightarrow> (case comprehension f data of Inl e \<Rightarrow> Inl e | Inr ys \<Rightarrow> Inr (y # ys)))"

fun GetPostingAccount_get_posting_account :: "store \<Rightarrow> element \<Rightarrow> error + pystr option" where
  "GetPostingAccount_get_posting_account s (ElemTransaction d) =
     (case plists s (postings d) of
        [] \<Rightarrow> Inl IndexError
      | p # ps \<Rightarrow> Inr (Some (account (last (p # ps)))))"
| "GetPostingAccount_get_posting_account s (ElemTxnPostingAccount d) =
     Inr (Some (account (posting d)))"
| "GetPostingAccount_get_posting_account s d = Inr None"

definition GetPostingAccount_transform ::
  "store \<Rightarrow> element list \<Rightarrow> error + pystr option list" where
  "GetPostingAccount_transform s data =
     comprehension (GetPostingAccount_get_posting_account s) data"

fun GetReferencePostingAccount_get_posting_account ::
  "store \<Rightarrow> element \<Rightarrow> error + pystr option" where
  "GetReferencePostingAccount_get_posting_account s (ElemTransaction d) =
     (case plists s (postings d) of
        [] \<Rightarrow> Inl IndexError
      | p # ps \<Rightarrow> Inr (Some (account p)))"
| "GetReferencePostingAccount_get_posting_account s (ElemTxnPostingAccount d) =
     Inr (Some (tpa_account d))"
| "GetReferencePostingAccount_get_posting_account s d = Inr None"

definition GetReferencePostingAccount_transform ::
  "store \<Rightarrow> element list \<Rightarrow> error + pystr option list" where
  "GetReferencePostingAccount_transform s data =
     comprehension (GetReferencePostingAccount_get_posting_account s) data"

text \<open>
  The condition under which the two posting adapters read an element without failing: a
  bare transaction needs at least one posting.
\<close>

definition has_postings :: "store \<Rightarrow> element \<Rightarrow> bool" where
  "has_postings s d = (case d of ElemTransaction t \<Rightarrow> plists s (postings t) \<noteq> [] | _ \<Rightarrow> True)"

section \<open>Sample values\<close>

text \<open>Concrete ledger values at which the theorems below are instantiated.\<close>

definition sample_date :: pydate where
  "sample_date = \<lparr>year = 2024, month = 3, day = 15\<rparr>"

definition sample_txn :: "ref \<Rightarrow> pystr option \<Rightarrow> transaction" where
  "sample_txn r p =
     \<lparr>meta = r, date = sample_date, flag = [0x2A], payee = p, narration = [0x4C, 0x75, 0x6E, 0x63, 0x68],
      tags = [], links = [], postings = r\<rparr>"

definition posting_A :: posting where
  "posting_A = Posting [0x41] (Some (Amount 5 [0x45, 0x55, 0x52])) None None None None"

definition posting_B :: posting where
  "posting_B = Posting [0x42] None None None None None"

text \<open>
  A store whose list 1 holds one posting, list 2 two postings, and whose other lists and
  dictionaries are empty.
\<close>

definition sample_store :: store where
  "sample_store =
     \<lparr>dicts = (\<lambda>r. Map.empty),
      plists = (\<lambda>r. if r = 1 then [posting_A] else if r = 2 then [posting_A, posting_B] else [])\<rparr>"

section \<open>Properties of the entry merger\<close>

lemma count_txns_Nil: "count_txns [] = 0"
  by (simp add: count_txns_def)

lemma count_txns_Cons:
  "count_txns (e # es) = (if isinstance_Transaction e then Suc (count_txns es) else count_txns es)"
  by (simp add: count_txns_def)

lemma merge_loop_char:
  "merge_loop acc it entries =
     (if count_txns entries \<le> length it then Inr (acc @ interleave_spec entries it)
      else Inl StopIteration)"
proof (induction entries arbitrary: acc it)
  case Nil
  show ?case by (simp add: count_txns_Nil)
next
  case (Cons e es)
  show ?case
  proof (cases "isinstance_Transaction e")
    case True
    then show ?thesis
      by (cases it) (simp_all add: Cons.IH count_txns_Cons)
  next
    case False
    then show ?thesis
      by (simp add: Cons.IH count_txns_Cons)
  qed
qed

lemma length_interleave_spec: "length (interleave_spec entries enh) = length entries"
  by (induction entries arbitrary: enh) simp_all

lemma interleave_spec_nth:
  "i < length entries \<Longrightarrow> count_txns entries \<le> length enh \<Longrightarrow>
   interleave_spec entries enh ! i =
     (if isinstance_Transaction (entries ! i) then enh ! count_txns (take i entries)
      else entries ! i)"
proof (induction entries arbitrary: enh i)
  case Nil
  then show ?case by simp
next
  case (Cons e es)
  show ?case
  proof (cases i)
    case 0
    with Cons.prems show ?thesis
      by (cases enh) (simp_all add: count_txns_Cons count_txns_Nil split: if_splits)
  next
    case (Suc j)
    with Cons.prems have j: "j < length es" by simp
    show ?thesis
    proof (cases "isinstance_Transaction e")
      case True
      with Cons.prems obtain x xs where enh: "enh = x # xs"
        by (cases enh) (simp_all add: count_txns_Cons)
      with True Cons.prems have "count_txns es \<le> length xs"
        by (simp add: count_txns_Cons)
      from Cons.IH [OF j this] True enh Suc show ?thesis
        by (simp add: count_txns_Cons)
    next
      case False
      with Cons.prems have "count_txns es \<le> length enh"
        by (simp add: count_txns_Cons)
      from Cons.IH [OF j this] False Suc show ?thesis
        by (simp add: count_txns_Cons)
    qed
  qed
qed

lemma interleave_spec_take:
  "count_txns entries \<le> length enh \<Longrightarrow>
   interleave_spec entries (take (count_txns entries) enh) = interleave_spec entries enh"
proof (induction entries arbitrary: enh)
  case Nil
  show ?case by simp
next
  case (Cons e es)
  show ?case
  proof (cases "isinstance_Transaction e")
    case True
    with Cons.prems obtain x xs where enh: "enh = x # xs"
      by (cases enh) (simp_all add: count_txns_Cons)
    with True Cons.prems have "count_txns es \<le> length xs"
      by (simp add: count_txns_Cons)
    from Cons.IH [OF this] True enh show ?thesis
      by (simp add: count_txns_Cons)
  next
    case False
    with Cons.prems have "count_txns es \<le> length enh"
      by (simp add: count_txns_Cons)
    from Cons.IH [OF this] False show ?thesis
      by (simp add: count_txns_Cons)
  qed
qed

lemma list4_nth: "length xs = 4 \<Longrightarrow> xs = [xs ! 0, xs ! 1, xs ! 2, xs ! 3]"
  by (auto simp add: length_Suc_conv eval_nat_numeral)

text \<open>
  Claim C1 (as amended).  Whenever the enhanced sequence has at least as many elements as
  the original has transaction-kind entries, \<open>merge_non_transaction_entries\<close> returns a
  sequence of the same length as the original in which every transaction-kind entry is
  replaced by the next element of the enhanced sequence, consumed in order (the entry at
  index \<open>i\<close> by the enhanced element whose index is the number of transactions before
  \<open>i\<close>), and every other entry stands unchanged.  The witness is the specification's
  example: entries \<open>[Open, Txn1, Note, Txn2]\<close> and enhanced \<open>[Txn1', Txn2']\<close> give
  \<open>[Open, Txn1', Note, Txn2']\<close>.
\<close>

theorem merge_non_transaction_entries_correct:
  assumes "count_txns entries \<le> length enhanced"
  shows "\<exists>out. merge_non_transaction_entries entries enhanced = Inr out \<and>
           length out = length entries \<and>
           (\<forall>i<length entries.
              out ! i = (if isinstance_Transaction (entries ! i)
                         then enhanced ! count_txns (take i entries) else entries ! i))"
  using assms
  by (simp add: merge_non_transaction_entries_def merge_loop_char length_interleave_spec
      interleave_spec_nth)

theorem merge_non_transaction_entries_correct_witness:
  "count_txns [Open sample_date [0x41], Transaction (sample_txn 1 None),
               Note sample_date [0x41] [0x6E], Transaction (sample_txn 2 None)]
     \<le> length [Transaction (sample_txn 1 (Some [0x58])), Transaction (sample_txn 2 (Some [0x59]))] \<and>
   merge_non_transaction_entries
     [Open sample_date [0x41], Transaction (sample_txn 1 None),
      Note sample_date [0x41] [0x6E], Transaction (sample_txn 2 None)]
     [Transaction (sample_txn 1 (Some [0x58])), Transaction (sample_txn 2 (Some [0x59]))]
   = Inr [Open sample_date [0x41], Transaction (sample_txn 1 (Some [0x58])),
          Note sample_date [0x41] [0x6E], Transaction (sample_txn 2 (Some [0x59]))]"
proof -
  let ?es = "[Open sample_date [0x41], Transaction (sample_txn 1 None),
      Note sample_date [0x41] [0x6E], Transaction (sample_txn 2 None)]"
  let ?enh = "[Transaction (sample_txn 1 (Some [0x58])), Transaction (sample_txn 2 (Some [0x59]))]"
  have h: "count_txns ?es \<le> length ?enh" by (simp add: count_txns_def)
  from merge_non_transaction_entries_correct [OF h]
  obtain out where o: "merge_non_transaction_entries ?es ?enh = Inr out"
    and l: "length out = length ?es"
    and n: "\<forall>i<length ?es. out ! i = (if isinstance_Transaction (?es ! i)
                         then ?enh ! count_txns (take i ?es) else ?es ! i)"
    by blast
  from n have "out ! 0 = ?es ! 0" "out ! 1 = ?enh ! 0" "out ! 2 = ?es ! 2" "out ! 3 = ?enh ! 1"
    by (simp_all add: count_txns_def)
  moreover from l have "out = [out ! 0, out ! 1, out ! 2, out ! 3]"
    by (intro list4_nth) simp
  ultimately have "out = [?es ! 0, ?enh ! 0, ?es ! 2, ?enh ! 1]"
    by simp
  with o h show ?thesis by simp
qed

text \<open>
  Without that condition the call does not return a sequence: one transaction and an
  empty enhanced sequence raise \<open>StopIteration\<close>.
\<close>

theorem merge_too_few_counterexample:
  "merge_non_transaction_entries [Transaction (sample_txn 1 None)] [] = Inl StopIteration"
  by (simp add: merge_non_transaction_entries_def)

text \<open>
  Claim C8 (as amended).  The call fails with \<open>StopIteration\<close> exactly when the enhanced
  sequence has fewer elements than the original has transaction-kind entries.  With as
  many or more it returns, and the result is the one for the enhanced sequence cut to that
  number: surplus elements are never read.
\<close>

theorem merge_non_transaction_entries_exhaustion:
  "(merge_non_transaction_entries entries enhanced = Inl StopIteration
      \<longleftrightarrow> length enhanced < count_txns entries) \<and>
   (count_txns entries \<le> length enhanced \<longrightarrow>
      (\<exists>out. merge_non_transaction_entries entries enhanced = Inr out \<and>
             merge_non_transaction_entries entries (take (count_txns entries) enhanced) = Inr out))"
  by (auto simp add: merge_non_transaction_entries_def merge_loop_char interleave_spec_take)

theorem merge_non_transaction_entries_exhaustion_witness:
  "count_txns [Open sample_date [0x41], Transaction (sample_txn 1 None)]
     \<le> length [Transaction (sample_txn 1 (Some [0x58])), Transaction (sample_txn 2 (Some [0x59]))] \<and>
   merge_non_transaction_entries [Open sample_date [0x41], Transaction (sample_txn 1 None)]
     [Transaction (sample_txn 1 (Some [0x58])), Transaction (sample_txn 2 (Some [0x59]))]
     \<noteq> Inl StopIteration \<and>
   merge_non_transaction_entries [Open sample_date [0x41], Transaction (sample_txn 1 None)]
     [Transaction (sample_txn 1 (Some [0x58])), Transaction (sample_txn 2 (Some [0x59]))]
   = merge_non_transaction_entries [Open sample_date [0x41], Transaction (sample_txn 1 None)]
       [Transaction (sample_txn 1 (Some [0x58]))]"
proof -
  let ?es = "[Open sample_date [0x41], Transaction (sample_txn 1 None)]"
  let ?enh = "[Transaction (sample_txn 1 (Some [0x58])), Transaction (sample_txn 2 (Some [0x59]))]"
  have h: "count_txns ?es \<le> length ?enh" by (simp add: count_txns_def)
  have c: "take (count_txns ?es) ?enh = [Transaction (sample_txn 1 (Some [0x58]))]"
    by (simp add: count_txns_def)
  from merge_non_transaction_entries_exhaustion [of ?es ?enh] h c show ?thesis
    by auto
qed

text \<open>
  An enhanced sequence with one element too many violates the stated precondition, and
  the call returns all the same.
\<close>

theorem merge_surplus_counterexample:
  "merge_non_transaction_entries [Open sample_date [0x41], Transaction (sample_txn 1 None)]
     [Transaction (sample_txn 1 (Some [0x58])), Transaction (sample_txn 2 (Some [0x59]))]
   = Inr [Open sample_date [0x41], Transaction (sample_txn 1 (Some [0x58]))]"
  by (simp add: merge_non_transaction_entries_def)

section \<open>Properties of the posting normalizer and the payee annotator\<close>

text \<open>
  Claim C3.  For a transaction with exactly one posting and an account \<open>a\<close>,
  \<open>add_posting_to_transaction\<close> returns the transaction, which then has exactly two
  postings: the one it had, and a second one whose account is \<open>a\<close> and whose other
  fields are all \<open>None\<close>.  For a transaction whose number of postings is not 1, the
  transaction is returned and nothing changes.
\<close>

theorem add_posting_to_transaction_correct:
  "(length (plists s (postings t)) = 1 \<longrightarrow>
      (\<exists>s'. add_posting_to_transaction s t a = (t, s') \<and>
            length (plists s' (postings t)) = 2 \<and>
            plists s' (postings t) ! 0 = plists s (postings t) ! 0 \<and>
            plists s' (postings t) ! 1 = Posting a None None None None None \<and>
            account (plists s' (postings t) ! 1) = a)) \<and>
   (length (plists s (postings t)) \<noteq> 1 \<longrightarrow> add_posting_to_transaction s t a = (t, s))"
  by (simp add: add_posting_to_transaction_def Let_def nth_append)

theorem add_posting_to_transaction_correct_witness:
  "length (plists sample_store (postings (sample_txn 1 None))) = 1 \<and>
   fst (add_posting_to_transaction sample_store (sample_txn 1 None) [0x42]) = sample_txn 1 None \<and>
   plists (snd (add_posting_to_transaction sample_store (sample_txn 1 None) [0x42]))
     (postings (sample_txn 1 None)) = [posting_A, Posting [0x42] None None None None None] \<and>
   length (plists sample_store (postings (sample_txn 2 None))) \<noteq> 1 \<and>
   add_posting_to_transaction sample_store (sample_txn 2 None) [0x42]
     = (sample_txn 2 None, sample_store) \<and>
   length (plists sample_store (postings (sample_txn 0 None))) \<noteq> 1 \<and>
   add_posting_to_transaction sample_store (sample_txn 0 None) [0x42]
     = (sample_txn 0 None, sample_store)"
proof -
  have h1: "length (plists sample_store (postings (sample_txn 1 None))) = 1"
    by (simp add: sample_store_def sample_txn_def)
  have h2: "length (plists sample_store (postings (sample_txn 2 None))) \<noteq> 1"
    by (simp add: sample_store_def sample_txn_def)
  have h0: "length (plists sample_store (postings (sample_txn 0 None))) \<noteq> 1"
    by (simp add: sample_store_def sample_txn_def)
  have p1: "plists sample_store (postings (sample_txn 1 None)) = [posting_A]"
    by (simp add: sample_store_def sample_txn_def)
  from add_posting_to_transaction_correct [of sample_store "sample_txn 1 None" "[0x42]"] h1
  obtain s' where s': "add_posting_to_transaction sample_store (sample_txn 1 None) [0x42]
       = (sample_txn 1 None, s')"
    and l: "length (plists s' (postings (sample_txn 1 None))) = 2"
    and n0: "plists s' (postings (sample_txn 1 None)) ! 0
       = plists sample_store (postings (sample_txn 1 None)) ! 0"
    and n1: "plists s' (postings (sample_txn 1 None)) ! 1 = Posting [0x42] None None None None None"
    by blast
  from l n0 n1 p1 have "plists s' (postings (sample_txn 1 None))
      = [posting_A, Posting [0x42] None None None None None]"
    by (auto simp add: length_Suc_conv eval_nat_numeral)
  with s' h1 h2 h0
    add_posting_to_transaction_correct [of sample_store "sample_txn 2 None" "[0x42]"]
    add_posting_to_transaction_correct [of sample_store "sample_txn 0 None" "[0x42]"]
  show ?thesis by simp
qed

text \<open>
  Claim C4 (as amended).  For a transaction without a payee (\<open>None\<close>),
  \<open>add_payee_to_transaction\<close> yields payee \<open>p\<close>; for a transaction whose payee is a
  non-empty string, the transaction is unchanged when \<open>overwrite\<close> is false; with
  \<open>overwrite\<close> true the payee is \<open>p\<close> for every transaction.  No field other than the
  payee ever changes.
\<close>

theorem add_payee_to_transaction_correct:
  "(payee t = None \<longrightarrow> payee (add_payee_to_transaction t p overwrite) = Some p) \<and>
   (\<forall>q. payee t = Some q \<and> q \<noteq> [] \<longrightarrow> add_payee_to_transaction t p False = t) \<and>
   payee (add_payee_to_transaction t p True) = Some p \<and>
   (\<exists>x. add_payee_to_transaction t p overwrite = t\<lparr>payee := x\<rparr>)"
  by (auto simp add: add_payee_to_transaction_def intro: exI [of _ "payee t"])

theorem add_payee_to_transaction_correct_witness:
  "payee (sample_txn 1 None) = None \<and>
   payee (add_payee_to_transaction (sample_txn 1 None) [0x58] False) = Some [0x58] \<and>
   payee (sample_txn 1 (Some [0x59])) = Some [0x59] \<and> [0x59] \<noteq> ([] :: pystr) \<and>
   add_payee_to_transaction (sample_txn 1 (Some [0x59])) [0x58] False = sample_txn 1 (Some [0x59]) \<and>
   payee (add_payee_to_transaction (sample_txn 1 (Some [0x59])) [0x58] True) = Some [0x58]"
  using add_payee_to_transaction_correct [of "sample_txn 1 None" "[0x58]" False]
    add_payee_to_transaction_correct [of "sample_txn 1 (Some [0x59])" "[0x58]" False]
  by (simp add: sample_txn_def)

text \<open>
  A payee that exists but is the empty string is not kept when \<open>overwrite\<close> is false.
\<close>

theorem add_payee_empty_string_counterexample:
  "payee (sample_txn 1 (Some [])) = Some [] \<and>
   payee (add_payee_to_transaction (sample_txn 1 (Some [])) [0x58] False) = Some [0x58]"
  by (simp add: add_payee_to_transaction_def sample_txn_def)

text \<open>
  Claim C10.  For a transaction whose payee is the empty string, and \<open>overwrite\<close>
  false, the payee is set to \<open>p\<close>: the result is the one for the same transaction with
  no payee at all.
\<close>

theorem add_payee_empty_string:
  "payee t = Some [] \<Longrightarrow>
     payee (add_payee_to_transaction t p False) = Some p \<and>
     add_payee_to_transaction t p False = add_payee_to_transaction (t\<lparr>payee := None\<rparr>) p False"
  by (simp add: add_payee_to_transaction_def)

theorem add_payee_empty_string_witness:
  "payee (sample_txn 1 (Some [])) = Some [] \<and>
   payee (add_payee_to_transaction (sample_txn 1 (Some [])) [0x58] False) = Some [0x58] \<and>
   add_payee_to_transaction (sample_txn 1 (Some [])) [0x58] False
     = add_payee_to_transaction (sample_txn 1 None) [0x58] False"
proof -
  have h: "payee (sample_txn 1 (Some [])) = Some []" by (simp add: sample_txn_def)
  have e: "(sample_txn 1 (Some []))\<lparr>payee := None\<rparr> = sample_txn 1 None"
    by (simp add: sample_txn_def)
  from add_payee_empty_string [OF h, of "[0x58]"] h show ?thesis
    unfolding e by blast
qed

section \<open>Properties of the field-extraction adapters\<close>

lemma comprehension_Inr_D:
  "comprehension f data = Inr out \<Longrightarrow> list_all2 (\<lambda>d y. f d = Inr y) data out"
  by (induction data arbitrary: out) (auto split: sum.splits)

lemma comprehension_Inr_I:
  "list_all2 (\<lambda>d y. f d = Inr y) data out \<Longrightarrow> comprehension f data = Inr out"
  by (induction rule: list_all2_induct) simp_all

lemma comprehension_Inr_iff:
  "comprehension f data = Inr out \<longleftrightarrow> list_all2 (\<lambda>d y. f d = Inr y) data out"
  by (blast intro: comprehension_Inr_I dest: comprehension_Inr_D)

lemma comprehension_total:
  "(\<And>d. d \<in> set data \<Longrightarrow> \<exists>y. f d = Inr y) \<Longrightarrow> \<exists>out. comprehension f data = Inr out"
proof (induction data)
  case Nil
  show ?case by simp
next
  case (Cons d data)
  from Cons.prems obtain y where "f d = Inr y" by auto
  moreover from Cons obtain ys where "comprehension f data = Inr ys" by auto
  ultimately show ?case by simp
qed

lemma comprehension_elementwise:
  assumes "\<And>d. d \<in> set data \<Longrightarrow> \<exists>y. f d = Inr y"
  shows "\<exists>out. comprehension f data = Inr out \<and> length out = length data \<and>
           (\<forall>i<length data. f (data ! i) = Inr (out ! i))"
proof -
  from comprehension_total [of data f] assms
  obtain out where o: "comprehension f data = Inr out" by blast
  then have "list_all2 (\<lambda>d y. f d = Inr y) data out"
    by (simp add: comprehension_Inr_iff)
  then have "length out = length data" "\<forall>i<length data. f (data ! i) = Inr (out ! i)"
    by (simp_all add: list_all2_conv_all_nth)
  with o show ?thesis by blast
qed

lemma GetPostingAccount_returns:
  "has_postings s d \<Longrightarrow> \<exists>y. GetPostingAccount_get_posting_account s d = Inr y"
  by (cases d) (auto simp add: has_postings_def split: list.splits)

lemma GetReferencePostingAccount_returns:
  "has_postings s d \<Longrightarrow> \<exists>y. GetReferencePostingAccount_get_posting_account s d = Inr y"
  by (cases d) (auto simp add: has_postings_def split: list.splits)

text \<open>
  Claim C7 (as amended).  \<open>transform\<close> of \<open>GetPayee\<close>, \<open>GetNarration\<close> and
  \<open>GetDayOfMonth\<close> returns, for every input list, a list of the same length whose
  \<open>i\<close>-th element is the adapter's projection of the \<open>i\<close>-th input.  \<open>transform\<close> of
  \<open>GetPostingAccount\<close> and \<open>GetReferencePostingAccount\<close> does so for every input list
  in which each bare transaction has at least one posting.  For a transaction with no
  payee \<open>GetPayee\<close> yields the empty string; for one with the postings \<open>[A, B]\<close>
  \<open>GetPostingAccount\<close> yields the account of \<open>B\<close> and \<open>GetReferencePostingAccount\<close>
  that of \<open>A\<close>; for one dated 2024-03-15 \<open>GetDayOfMonth\<close> yields 15.
\<close>

theorem transform_elementwise:
  "length (GetPayee_transform data) = length data \<and>
   (\<forall>i<length data. GetPayee_transform data ! i = GetPayee_get_payee (data ! i)) \<and>
   length (GetNarration_transform data) = length data \<and>
   (\<forall>i<length data. GetNarration_transform data ! i = GetNarration_get_narration (data ! i)) \<and>
   length (GetDayOfMonth_transform data) = length data \<and>
   (\<forall>i<length data. GetDayOfMonth_transform data ! i = GetDayOfMonth_get_day_of_month (data ! i)) \<and>
   (list_all (has_postings s) data \<longrightarrow>
      (\<exists>out. GetPostingAccount_transform s data = Inr out \<and> length out = length data \<and>
         (\<forall>i<length data. GetPostingAccount_get_posting_account s (data ! i) = Inr (out ! i))) \<and>
      (\<exists>out. GetReferencePostingAccount_transform s data = Inr out \<and> length out = length data \<and>
         (\<forall>i<length data.
            GetReferencePostingAccount_get_posting_account s (data ! i) = Inr (out ! i)))) \<and>
   (payee t = None \<longrightarrow> GetPayee_get_payee (ElemTransaction t) = Some []) \<and>
   (plists s (postings t) = [A, B] \<longrightarrow>
      GetPostingAccount_get_posting_account s (ElemTransaction t) = Inr (Some (account B)) \<and>
      GetReferencePostingAccount_get_posting_account s (ElemTransaction t) = Inr (Some (account A))) \<and>
   (date t = \<lparr>year = 2024, month = 3, day = 15\<rparr> \<longrightarrow>
      GetDayOfMonth_get_day_of_month (ElemTransaction t) = Some 15)"
proof -
  have pure: "length (GetPayee_transform data) = length data"
    "\<forall>i<length data. GetPayee_transform data ! i = GetPayee_get_payee (data ! i)"
    "length (GetNarration_transform data) = length data"
    "\<forall>i<length data. GetNarration_transform data ! i = GetNarration_get_narration (data ! i)"
    "length (GetDayOfMonth_transform data) = length data"
    "\<forall>i<length data. GetDayOfMonth_transform data ! i = GetDayOfMonth_get_day_of_month (data ! i)"
    by (simp_all add: GetPayee_transform_def GetNarration_transform_def
        GetDayOfMonth_transform_def)
  have post: "\<exists>out. GetPostingAccount_transform s data = Inr out \<and> length out = length data \<and>
         (\<forall>i<length data. GetPostingAccount_get_posting_account s (data ! i) = Inr (out ! i))"
    if "list_all (has_postings s) data"
    unfolding GetPostingAccount_transform_def
    using that by (intro comprehension_elementwise GetPostingAccount_returns)
      (simp add: list_all_iff)
  have ref: "\<exists>out. GetReferencePostingAccount_transform s data = Inr out \<and>
         length out = length data \<and>
         (\<forall>i<length data.
            GetReferencePostingAccount_get_posting_account s (data ! i) = Inr (out ! i))"
    if "list_all (has_postings s) data"
    unfolding GetReferencePostingAccount_transform_def
    using that by (intro comprehension_elementwise GetReferencePostingAccount_returns)
      (simp add: list_all_iff)
  have ex: "payee t = None \<longrightarrow> GetPayee_get_payee (ElemTransaction t) = Some []"
    "plists s (postings t) = [A, B] \<longrightarrow>
      GetPostingAccount_get_posting_account s (ElemTransaction t) = Inr (Some (account B)) \<and>
      GetReferencePostingAccount_get_posting_account s (ElemTransaction t) = Inr (Some (account A))"
    "date t = \<lparr>year = 2024, month = 3, day = 15\<rparr> \<longrightarrow>
      GetDayOfMonth_get_day_of_month (ElemTransaction t) = Some 15"
    by simp_all
  from pure post ref ex show ?thesis by blast
qed

theorem transform_elementwise_witness:
  "list_all (has_postings sample_store)
     [ElemTransaction (sample_txn 2 None),
      ElemTxnPostingAccount (TxnPostingAccount (sample_txn 1 (Some [0x58])) posting_B [0x41])] \<and>
   GetPayee_transform
     [ElemTransaction (sample_txn 2 None),
      ElemTxnPostingAccount (TxnPostingAccount (sample_txn 1 (Some [0x58])) posting_B [0x41])]
     = [Some [], Some [0x58]] \<and>
   GetDayOfMonth_transform
     [ElemTransaction (sample_txn 2 None),
      ElemTxnPostingAccount (TxnPostingAccount (sample_txn 1 (Some [0x58])) posting_B [0x41])]
     = [Some 15, Some 15] \<and>
   GetPostingAccount_transform sample_store
     [ElemTransaction (sample_txn 2 None),
      ElemTxnPostingAccount (TxnPostingAccount (sample_txn 1 (Some [0x58])) posting_B [0x41])]
     = Inr [Some [0x42], Some [0x42]] \<and>
   GetReferencePostingAccount_transform sample_store
     [ElemTransaction (sample_txn 2 None),
      ElemTxnPostingAccount (TxnPostingAccount (sample_txn 1 (Some [0x58])) posting_B [0x41])]
     = Inr [Some [0x41], Some [0x41]] \<and>
   payee (sample_txn 2 None) = None \<and>
   plists sample_store (postings (sample_txn 2 None)) = [posting_A, posting_B] \<and>
   date (sample_txn 2 None) = \<lparr>year = 2024, month = 3, day = 15\<rparr>"
proof -
  let ?d = "[ElemTransaction (sample_txn 2 None),
      ElemTxnPostingAccount (TxnPostingAccount (sample_txn 1 (Some [0x58])) posting_B [0x41])]"
  have h: "list_all (has_postings sample_store) ?d"
    by (simp add: has_postings_def sample_store_def sample_txn_def)
  have p: "plists sample_store (postings (sample_txn 2 None)) = [posting_A, posting_B]"
    by (simp add: sample_store_def sample_txn_def)
  have a: "account posting_A = [0x41]" "account posting_B = [0x42]"
    by (simp_all add: posting_A_def posting_B_def)
  have q: "payee (sample_txn 2 None) = None" "payee (sample_txn 1 (Some [0x58])) = Some [0x58]"
    "date (sample_txn 2 None) = \<lparr>year = 2024, month = 3, day = 15\<rparr>"
    "date (sample_txn 1 (Some [0x58])) = \<lparr>year = 2024, month = 3, day = 15\<rparr>"
    by (simp_all add: sample_txn_def sample_date_def)
  note t = transform_elementwise [of ?d sample_store "sample_txn 2 None" posting_A posting_B]
  from t h obtain o1 where o1: "GetPostingAccount_transform sample_store ?d = Inr o1"
    "length o1 = length ?d"
    "\<forall>i<length ?d. GetPostingAccount_get_posting_account sample_store (?d ! i) = Inr (o1 ! i)"
    by blast
  from t h obtain o2 where o2: "GetReferencePostingAccount_transform sample_store ?d = Inr o2"
    "length o2 = length ?d"
    "\<forall>i<length ?d. GetReferencePostingAccount_get_posting_account sample_store (?d ! i)
        = Inr (o2 ! i)"
    by blast
  from o1(3) p a have "o1 ! 0 = Some [0x42]" "o1 ! 1 = Some [0x42]"
    by (auto simp add: posting_B_def dest: spec [of _ 0] spec [of _ 1])
  with o1(2) have e1: "o1 = [Some [0x42], Some [0x42]]"
    by (auto simp add: length_Suc_conv eval_nat_numeral)
  from o2(3) p a have "o2 ! 0 = Some [0x41]" "o2 ! 1 = Some [0x41]"
    by (auto dest: spec [of _ 0] spec [of _ 1])
  with o2(2) have e2: "o2 = [Some [0x41], Some [0x41]]"
    by (auto simp add: length_Suc_conv eval_nat_numeral)
  have g: "GetPayee_transform ?d = [Some [], Some [0x58]]"
    "GetDayOfMonth_transform ?d = [Some 15, Some 15]"
    by (simp_all add: GetPayee_transform_def GetDayOfMonth_transform_def sample_txn_def
        sample_date_def)
  from h g o1(1) o2(1) e1 e2 p q show ?thesis by simp
qed

text \<open>
  On a transaction without postings the two posting adapters raise \<open>IndexError\<close>, and
  \<open>transform\<close> returns no list.
\<close>

theorem transform_empty_postings_counterexample:
  "GetPostingAccount_transform sample_store [ElemTransaction (sample_txn 0 None)] = Inl IndexError \<and>
   GetReferencePostingAccount_transform sample_store [ElemTransaction (sample_txn 0 None)]
     = Inl IndexError"
  by (simp add: GetPostingAccount_transform_def GetReferencePostingAccount_transform_def
      sample_store_def sample_txn_def)

text \<open>
  Claim C9.  For an element that is neither a transaction nor a \<open>TxnPostingAccount\<close>,
  each of the five adapters produces \<open>None\<close> and raises nothing; \<open>transform\<close> on such
  an element returns the list holding \<open>None\<close>.
\<close>

theorem extractors_unrecognised:
  assumes "\<forall>t. d \<noteq> ElemTransaction t" and "\<forall>x. d \<noteq> ElemTxnPostingAccount x"
  shows "GetPayee_get_payee d = None \<and>
         GetNarration_get_narration d = None \<and>
         GetPostingAccount_get_posting_account s d = Inr None \<and>
         GetReferencePostingAccount_get_posting_account s d = Inr None \<and>
         GetDayOfMonth_get_day_of_month d = None \<and>
         GetPayee_transform [d] = [None] \<and>
         GetNarration_transform [d] = [None] \<and>
         GetPostingAccount_transform s [d] = Inr [None] \<and>
         GetReferencePostingAccount_transform s [d] = Inr [None] \<and>
         GetDayOfMonth_transform [d] = [None]"
  using assms
  by (cases d)
    (simp_all add: GetPayee_transform_def GetNarration_transform_def
      GetDayOfMonth_transform_def GetPostingAccount_transform_def
      GetReferencePostingAccount_transform_def)

theorem extractors_unrecognised_witness:
  "(\<forall>t. ElemStr [0x41] \<noteq> ElemTransaction t) \<and>
   (\<forall>x. ElemStr [0x41] \<noteq> ElemTxnPostingAccount x) \<and>
   GetPayee_get_payee (ElemStr [0x41]) = None \<and>
   GetNarration_get_narration (ElemStr [0x41]) = None \<and>
   GetPostingAccount_get_posting_account sample_store (ElemStr [0x41]) = Inr None \<and>
   GetReferencePostingAccount_get_posting_account sample_store (ElemStr [0x41]) = Inr None \<and>
   GetDayOfMonth_get_day_of_month (ElemStr [0x41]) = None \<and>
   GetPayee_transform [ElemStr [0x41]] = [None]"
proof -
  have h: "\<forall>t. ElemStr [0x41] \<noteq> ElemTransaction t"
    "\<forall>x. ElemStr [0x41] \<noteq> ElemTxnPostingAccount x"
    by simp_all
  from extractors_unrecognised [OF h, of sample_store] h show ?thesis by blast
qed

section \<open>Properties of the corpus loader\<close>

lemma filter_account_txns:
  "list_all isinstance_Transaction xs \<Longrightarrow>
   filter_account s a xs = Inr (filter (touches_account s a) xs)"
proof (induction xs)
  case Nil
  show ?case by simp
next
  case (Cons e xs)
  then obtain t where "e = Transaction t" by (cases e) simp_all
  with Cons show ?case by (simp add: touches_account_def)
qed

lemma list_all_filter_txns: "list_all isinstance_Transaction (filter_txns xs)"
  by (simp add: filter_txns_def list_all_iff)

lemma keep_txns_Some: "keep_txns (Some xs) = Some (filter_txns xs)"
  by (simp add: keep_txns_def filter_txns_def)

lemma load_from_list:
  assumes "resolve_source load_file td ex = Inr (Some xs)"
  shows "load_training_data load_file s td None ex = Inr (Some (filter_txns xs))"
    and "load_training_data load_file s td (Some []) ex = Inr (Some (filter_txns xs))"
    and "a \<noteq> [] \<Longrightarrow> load_training_data load_file s td (Some a) ex
           = Inr (Some (filter (touches_account s a) (filter_txns xs)))"
  using assms
  by (simp_all add: load_training_data_def keep_txns_Some filter_account_txns
      list_all_filter_txns)

lemma resolve_explicit:
  "xs \<noteq> [] \<Longrightarrow> resolve_source load_file (DataList xs) ex = Inr (Some xs)"
  by (simp add: resolve_source_def)

lemma resolve_fallback:
  "\<not> truthy_data td \<Longrightarrow> ys \<noteq> [] \<Longrightarrow> resolve_source load_file td (Some ys) = Inr (Some ys)"
  by (simp add: resolve_source_def)

lemma touches_account_posting:
  "touches_account s a e \<Longrightarrow>
   \<exists>t. e = Transaction t \<and> (\<exists>pos \<in> set (plists s (postings t)). account pos = a)"
  by (cases e) (auto simp add: touches_account_def list_ex_iff)

lemma load_account_filtered:
  assumes "a \<noteq> []" and "load_training_data load_file s td (Some a) ex = Inr (Some out)"
  shows "list_all (touches_account s a) out"
proof -
  from assms obtain r where r: "resolve_source load_file td ex = Inr r"
    by (auto simp add: load_training_data_def split: sum.splits)
  with assms obtain xs where k: "keep_txns r = Some xs"
    and f: "filter_account s a xs = Inr out"
    by (auto simp add: load_training_data_def split: sum.splits option.splits)
  have "list_all isinstance_Transaction xs"
  proof (cases r)
    case None
    with k show ?thesis by (simp add: keep_txns_def)
  next
    case (Some ys)
    with k show ?thesis
      by (cases "ys = []") (auto simp add: keep_txns_def list_all_filter_txns)
  qed
  from filter_account_txns [OF this, of s a] f show ?thesis
    by (simp add: list_all_iff)
qed

text \<open>
  Claim C5 (as amended).  If \<open>training_data\<close> is a non-empty list, the output of
  \<open>load_training_data\<close> is that list filtered to its transactions and, when
  \<open>known_account\<close> is a non-empty string, further restricted to the transactions with
  a posting on that account.  If \<open>training_data\<close> is empty or absent and
  \<open>existing_entries\<close> is a non-empty list, \<open>existing_entries\<close> is the source, under
  the same rules.  Whenever the call returns a list for a non-empty \<open>known_account\<close>,
  every element of it is a transaction with a posting on that account.
\<close>

theorem load_training_data_correct:
  "(xs \<noteq> [] \<longrightarrow>
      load_training_data load_file s (DataList xs) None ex = Inr (Some (filter_txns xs)) \<and>
      (a \<noteq> [] \<longrightarrow> load_training_data load_file s (DataList xs) (Some a) ex
          = Inr (Some (filter (touches_account s a) (filter_txns xs))))) \<and>
   (\<not> truthy_data td \<and> ys \<noteq> [] \<longrightarrow>
      load_training_data load_file s td None (Some ys) = Inr (Some (filter_txns ys)) \<and>
      (a \<noteq> [] \<longrightarrow> load_training_data load_file s td (Some a) (Some ys)
          = Inr (Some (filter (touches_account s a) (filter_txns ys))))) \<and>
   (a \<noteq> [] \<and> load_training_data load_file s td (Some a) ex = Inr (Some out) \<longrightarrow>
      (\<forall>e \<in> set out. \<exists>t. e = Transaction t \<and>
         (\<exists>pos \<in> set (plists s (postings t)). account pos = a)))"
proof -
  have 1: "load_training_data load_file s (DataList xs) None ex = Inr (Some (filter_txns xs))"
    "a \<noteq> [] \<longrightarrow> load_training_data load_file s (DataList xs) (Some a) ex
          = Inr (Some (filter (touches_account s a) (filter_txns xs)))"
    if "xs \<noteq> []"
    using load_from_list [OF resolve_explicit [OF that]] by blast+
  have 2: "load_training_data load_file s td None (Some ys) = Inr (Some (filter_txns ys))"
    "a \<noteq> [] \<longrightarrow> load_training_data load_file s td (Some a) (Some ys)
          = Inr (Some (filter (touches_account s a) (filter_txns ys)))"
    if "\<not> truthy_data td" "ys \<noteq> []"
    using load_from_list [OF resolve_fallback [OF that]] by blast+
  have 3: "\<forall>e \<in> set out. \<exists>t. e = Transaction t \<and>
         (\<exists>pos \<in> set (plists s (postings t)). account pos = a)"
    if "a \<noteq> []" "load_training_data load_file s td (Some a) ex = Inr (Some out)"
    using load_account_filtered [OF that] touches_account_posting
    by (auto simp add: list_all_iff)
  from 1 2 3 show ?thesis by blast
qed

theorem load_training_data_correct_witness:
  "[Open sample_date [0x41], Transaction (sample_txn 1 None), Transaction (sample_txn 2 None)] \<noteq> [] \<and>
   [0x42] \<noteq> ([] :: pystr) \<and> \<not> truthy_data (DataList []) \<and>
   load_training_data (\<lambda>p. Inl LoadError) sample_store
     (DataList [Open sample_date [0x41], Transaction (sample_txn 1 None),
        Transaction (sample_txn 2 None)]) None None
     = Inr (Some [Transaction (sample_txn 1 None), Transaction (sample_txn 2 None)]) \<and>
   load_training_data (\<lambda>p. Inl LoadError) sample_store
     (DataList [Open sample_date [0x41], Transaction (sample_txn 1 None),
        Transaction (sample_txn 2 None)]) (Some [0x42]) None
     = Inr (Some [Transaction (sample_txn 2 None)]) \<and>
   load_training_data (\<lambda>p. Inl LoadError) sample_store (DataList []) (Some [0x42])
     (Some [Open sample_date [0x41], Transaction (sample_txn 1 None),
        Transaction (sample_txn 2 None)])
     = Inr (Some [Transaction (sample_txn 2 None)]) \<and>
   (\<exists>pos \<in> set (plists sample_store (postings (sample_txn 2 None))). account pos = [0x42])"
proof -
  let ?xs = "[Open sample_date [0x41], Transaction (sample_txn 1 None),
      Transaction (sample_txn 2 None)]"
  let ?lf = "\<lambda>p :: pystr. Inl LoadError :: error + entry list"
  have h: "?xs \<noteq> []" "[0x42] \<noteq> ([] :: pystr)" "\<not> truthy_data (DataList [])"
    by simp_all
  have f: "filter_txns ?xs = [Transaction (sample_txn 1 None), Transaction (sample_txn 2 None)]"
    by (simp add: filter_txns_def)
  have g: "filter (touches_account sample_store [0x42])
      [Transaction (sample_txn 1 None), Transaction (sample_txn 2 None)]
      = [Transaction (sample_txn 2 None)]"
    by (simp add: touches_account_def sample_store_def sample_txn_def posting_A_def
        posting_B_def)
  note t1 = load_training_data_correct [of ?xs ?lf sample_store None "[0x42]" "DataList []" ?xs
      "[Transaction (sample_txn 2 None)]"]
  note t2 = load_training_data_correct [of ?xs ?lf sample_store "Some ?xs" "[0x42]"
      "DataList []" ?xs "[Transaction (sample_txn 2 None)]"]
  from t1 h f g have a: "load_training_data ?lf sample_store (DataList ?xs) None None
      = Inr (Some [Transaction (sample_txn 1 None), Transaction (sample_txn 2 None)])"
    and b: "load_training_data ?lf sample_store (DataList ?xs) (Some [0x42]) None
      = Inr (Some [Transaction (sample_txn 2 None)])"
    by simp_all
  from t1 h f g have c: "load_training_data ?lf sample_store (DataList []) (Some [0x42]) (Some ?xs)
      = Inr (Some [Transaction (sample_txn 2 None)])"
    by simp
  from t2 h c have d: "\<exists>pos \<in> set (plists sample_store (postings (sample_txn 2 None))).
      account pos = [0x42]"
    by simp
  from h a b c d show ?thesis by blast
qed

text \<open>
  An \<open>existing_entries\<close> that is supplied but empty is not used: with no training data
  the result is \<open>None\<close>, and with an account filter as well the call raises
  \<open>TypeError\<close>.  A \<open>known_account\<close> that is given but empty filters nothing.
\<close>

theorem load_training_data_empty_fallback_counterexample:
  "load_training_data (\<lambda>p. Inl LoadError) sample_store DataNone None (Some []) = Inr None \<and>
   load_training_data (\<lambda>p. Inl LoadError) sample_store DataNone (Some [0x42]) (Some [])
     = Inl TypeError \<and>
   load_training_data (\<lambda>p. Inl LoadError) sample_store
     (DataList [Transaction (sample_txn 1 None)]) (Some []) None
     = Inr (Some [Transaction (sample_txn 1 None)])"
  by (simp add: load_training_data_def resolve_source_def keep_txns_def filter_txns_def)

section \<open>Properties of the suggestion metadata\<close>

lemma add_suggestions_to_transaction_effect:
  "\<exists>s'. add_suggestions_to_transaction s t suggestions key = (t, s') \<and>
        dicts s' (meta t) key = Some (MetaStr (json_dumps suggestions)) \<and>
        (\<forall>k. k \<noteq> key \<longrightarrow> dicts s' (meta t) k = dicts s (meta t) k) \<and>
        (\<forall>r. r \<noteq> meta t \<longrightarrow> dicts s' r = dicts s r) \<and>
        plists s' = plists s"
  by (simp add: add_suggestions_to_transaction_def Let_def)

text \<open>
  Claim C2 (as amended).  \<open>add_suggested_accounts_to_transaction\<close> and
  \<open>add_suggested_payees_to_transaction\<close> return a transaction with the fields of the one
  passed in, the reference to the \<open>meta\<close> dictionary among them.  That one dictionary,
  which the original transaction shares with the returned one, holds the serialized
  suggestions under the reserved key after the call; its other keys, every other
  dictionary and every posting list are unchanged.
\<close>

theorem add_suggestions_shared_meta:
  "(\<exists>s'. add_suggested_accounts_to_transaction s t suggestions = (t, s') \<and>
        dicts s' (meta t) METADATA_KEY_SUGGESTED_ACCOUNTS = Some (MetaStr (json_dumps suggestions)) \<and>
        (\<forall>k. k \<noteq> METADATA_KEY_SUGGESTED_ACCOUNTS \<longrightarrow> dicts s' (meta t) k = dicts s (meta t) k) \<and>
        (\<forall>r. r \<noteq> meta t \<longrightarrow> dicts s' r = dicts s r) \<and>
        plists s' = plists s) \<and>
   (\<exists>s'. add_suggested_payees_to_transaction s t suggestions = (t, s') \<and>
        dicts s' (meta t) METADATA_KEY_SUGGESTED_PAYEES = Some (MetaStr (json_dumps suggestions)) \<and>
        (\<forall>k. k \<noteq> METADATA_KEY_SUGGESTED_PAYEES \<longrightarrow> dicts s' (meta t) k = dicts s (meta t) k) \<and>
        (\<forall>r. r \<noteq> meta t \<longrightarrow> dicts s' r = dicts s r) \<and>
        plists s' = plists s)"
  unfolding add_suggested_accounts_to_transaction_def add_suggested_payees_to_transaction_def
  using add_suggestions_to_transaction_effect by blast

theorem add_suggestions_shared_meta_witness:
  "fst (add_suggested_accounts_to_transaction sample_store (sample_txn 1 None) [[0x46]])
     = sample_txn 1 None \<and>
   dicts (snd (add_suggested_accounts_to_transaction sample_store (sample_txn 1 None) [[0x46]]))
     (meta (sample_txn 1 None)) METADATA_KEY_SUGGESTED_ACCOUNTS
     = Some (MetaStr (json_dumps [[0x46]])) \<and>
   dicts (snd (add_suggested_accounts_to_transaction sample_store (sample_txn 1 None) [[0x46]]))
     (meta (sample_txn 1 None)) METADATA_KEY_SUGGESTED_PAYEES = None \<and>
   dicts (snd (add_suggested_accounts_to_transaction sample_store (sample_txn 1 None) [[0x46]]))
     (meta (sample_txn 2 None)) = Map.empty"
proof -
  have k: "METADATA_KEY_SUGGESTED_PAYEES \<noteq> METADATA_KEY_SUGGESTED_ACCOUNTS"
    by (simp add: METADATA_KEY_SUGGESTED_PAYEES_def METADATA_KEY_SUGGESTED_ACCOUNTS_def str_def)
  have r: "meta (sample_txn 2 None) \<noteq> meta (sample_txn 1 None)"
    by (simp add: sample_txn_def)
  have e: "dicts sample_store (meta (sample_txn 1 None)) METADATA_KEY_SUGGESTED_PAYEES = None"
    "dicts sample_store (meta (sample_txn 2 None)) = Map.empty"
    by (simp_all add: sample_store_def)
  from add_suggestions_shared_meta [of sample_store "sample_txn 1 None" "[[0x46]]"]
  obtain s' where s': "add_suggested_accounts_to_transaction sample_store (sample_txn 1 None)
        [[0x46]] = (sample_txn 1 None, s')"
    and a: "dicts s' (meta (sample_txn 1 None)) METADATA_KEY_SUGGESTED_ACCOUNTS
        = Some (MetaStr (json_dumps [[0x46]]))"
    and b: "\<forall>k. k \<noteq> METADATA_KEY_SUGGESTED_ACCOUNTS \<longrightarrow>
        dicts s' (meta (sample_txn 1 None)) k = dicts sample_store (meta (sample_txn 1 None)) k"
    and c: "\<forall>r. r \<noteq> meta (sample_txn 1 None) \<longrightarrow> dicts s' r = dicts sample_store r"
    by blast
  from b k e(1) have "dicts s' (meta (sample_txn 1 None)) METADATA_KEY_SUGGESTED_PAYEES = None"
    by simp
  moreover from c r e(2) have "dicts s' (meta (sample_txn 2 None)) = Map.empty"
    by simp
  ultimately show ?thesis using s' a by simp
qed

text \<open>
  The \<open>meta\<close> mapping of the original transaction is therefore not unchanged: a key
  that was missing before the call is present afterwards.
\<close>

theorem add_suggestions_mutates_original_counterexample:
  "dicts sample_store (meta (sample_txn 1 None)) METADATA_KEY_SUGGESTED_ACCOUNTS = None \<and>
   dicts (snd (add_suggested_accounts_to_transaction sample_store (sample_txn 1 None) [[0x46]]))
     (meta (sample_txn 1 None)) METADATA_KEY_SUGGESTED_ACCOUNTS \<noteq> None"
  by (simp add: add_suggested_accounts_to_transaction_def add_suggestions_to_transaction_def
      sample_store_def Let_def)

section \<open>Properties of the JSON text\<close>

text \<open>One step of the scanner, for each way a character can be written.\<close>

lemma scan_quote: "scanstring (0x22 # cs) = Inr ([], cs)"
  by simp

lemma scan_plain:
  "c \<noteq> 0x22 \<Longrightarrow> c \<noteq> 0x5C \<Longrightarrow> \<not> c < 0x20 \<Longrightarrow>
   scanstring (c # cs) = push_char c (scanstring cs)"
  by simp

lemma scan_short:
  "e \<noteq> 0x75 \<Longrightarrow> BACKSLASH e = Some ch \<Longrightarrow>
   scanstring (0x5C # e # es) = push_char ch (scanstring es)"
  by simp

lemma scan_u_single:
  "decode_uXXXX es = Some uni \<Longrightarrow>
   \<not> (is_high_surrogate uni \<and> take 2 (drop 4 es) = [0x5C, 0x75]) \<Longrightarrow>
   scanstring (0x5C # 0x75 # es) = push_char uni (scanstring (drop 4 es))"
  by auto

lemma scan_u_unpaired:
  "decode_uXXXX es = Some uni \<Longrightarrow> decode_uXXXX (drop 6 es) = Some uni2 \<Longrightarrow>
   \<not> is_low_surrogate uni2 \<Longrightarrow>
   scanstring (0x5C # 0x75 # es) = push_char uni (scanstring (drop 4 es))"
  by simp

lemma scan_u_pair:
  "decode_uXXXX es = Some uni \<Longrightarrow> is_high_surrogate uni \<Longrightarrow>
   take 2 (drop 4 es) = [0x5C, 0x75] \<Longrightarrow> decode_uXXXX (drop 6 es) = Some uni2 \<Longrightarrow>
   is_low_surrogate uni2 \<Longrightarrow>
   scanstring (0x5C # 0x75 # es) = push_char (join_surrogates uni uni2) (scanstring (drop 10 es))"
  by simp

lemma unhex_hexdigit: "d < 16 \<Longrightarrow> unhex (hexdigit d) = Some d"
  by (simp add: unhex_def hexdigit_def)

lemma hex4_value:
  fixes n :: nat
  assumes n: "n < 65536"
  shows "((n div 4096 mod 16 * 16 + n div 256 mod 16) * 16 + n div 16 mod 16) * 16 + n mod 16 = n"
proof -
  define a where "a = n div 16"
  define b where "b = a div 16"
  define c where "c = b div 16"
  have b': "n div 256 = b"
    unfolding b_def a_def by (simp add: div_mult2_eq [symmetric])
  have c': "n div 4096 = c"
    unfolding c_def b_def a_def by (simp add: div_mult2_eq [symmetric])
  from n have "c < 16" unfolding c' [symmetric] by simp
  then have c16: "c mod 16 = c" by simp
  have 1: "n = a * 16 + n mod 16" unfolding a_def by simp
  have 2: "a = b * 16 + a mod 16" unfolding b_def by simp
  have 3: "b = c * 16 + b mod 16" unfolding c_def by simp
  have "((c * 16 + b mod 16) * 16 + a mod 16) * 16 + n mod 16 = n"
    using 1 2 3 by simp
  then show ?thesis
    unfolding b' c' c16 a_def [symmetric] .
qed


lemma decode_hex4: "n < 65536 \<Longrightarrow> decode_uXXXX (hex4 n @ rest) = Some n"
proof -
  assume n: "n < 65536"
  have d: "n div 4096 mod 16 < 16" "n div 256 mod 16 < 16" "n div 16 mod 16 < 16" "n mod 16 < 16"
    by simp_all
  show ?thesis
    unfolding hex4_def
    by (simp only: append_Cons append_Nil decode_uXXXX.simps unhex_hexdigit [OF d(1)]
        unhex_hexdigit [OF d(2)] unhex_hexdigit [OF d(3)] unhex_hexdigit [OF d(4)]
        prod.case option.case hex4_value [OF n])
qed


declare scanstring.simps [simp del]

lemma length_hex4: "length (hex4 n) = 4"
  by (simp add: hex4_def)

lemma scan_u_escape:
  assumes n: "n < 65536" and safe: "is_high_surrogate n \<Longrightarrow> safe_after Y"
  shows "scanstring (u_escape n @ Y) = push_char n (scanstring Y)"
proof -
  have d: "decode_uXXXX (hex4 n @ Y) = Some n" by (rule decode_hex4 [OF n])
  show ?thesis
  proof (cases "is_high_surrogate n \<and> take 2 Y = [0x5C, 0x75]")
    case False
    then have "\<not> (is_high_surrogate n \<and> take 2 (drop 4 (hex4 n @ Y)) = [0x5C, 0x75])"
      by (simp add: length_hex4)
    from scan_u_single [OF d this] show ?thesis
      by (simp add: u_escape_def length_hex4)
  next
    case True
    with safe obtain u where u: "decode_uXXXX (drop 2 Y) = Some u" "\<not> is_low_surrogate u"
      by (auto simp add: safe_after_def)
    have "drop 6 (hex4 n @ Y) = drop 2 Y"
      by (simp add: hex4_def)
    with u have "decode_uXXXX (drop 6 (hex4 n @ Y)) = Some u" by simp
    from scan_u_unpaired [OF d this u(2)] show ?thesis
      by (simp add: u_escape_def length_hex4)
  qed
qed

lemma scan_u_escape_pair:
  assumes c: "0x10000 \<le> c" "c < 0x110000"
  shows "scanstring (u_escape (0xD800 + (c - 0x10000) div 1024 mod 1024)
            @ u_escape (0xDC00 + (c - 0x10000) mod 1024) @ Y)
         = push_char c (scanstring Y)"
proof -
  define n where "n = c - 0x10000"
  define s1 where "s1 = 0xD800 + n div 1024 mod 1024"
  define s2 where "s2 = 0xDC00 + n mod 1024"
  let ?es = "hex4 s1 @ u_escape s2 @ Y"
  from c have n: "n < 1048576" by (simp add: n_def)
  then have nd: "n div 1024 mod 1024 = n div 1024" by simp
  have s1: "s1 < 65536" "is_high_surrogate s1"
    by (simp_all add: s1_def is_high_surrogate_def)
  have s2: "s2 < 65536" "is_low_surrogate s2"
    by (simp_all add: s2_def is_low_surrogate_def)
  have d1: "decode_uXXXX ?es = Some s1" by (rule decode_hex4 [OF s1(1)])
  have t: "take 2 (drop 4 ?es) = [0x5C, 0x75]"
    by (simp add: length_hex4 u_escape_def)
  have "drop 6 ?es = hex4 s2 @ Y"
    by (simp add: hex4_def u_escape_def)
  then have d2: "decode_uXXXX (drop 6 ?es) = Some s2"
    by (simp add: decode_hex4 [OF s2(1)])
  have r: "drop 10 ?es = Y"
    by (simp add: hex4_def u_escape_def)
  have "join_surrogates s1 s2 = 0x10000 + (n div 1024 * 1024 + n mod 1024)"
    by (simp add: join_surrogates_def s1_def s2_def nd)
  also have "\<dots> = 0x10000 + n" by simp
  also from c have "\<dots> = c" by (simp add: n_def)
  finally have j: "join_surrogates s1 s2 = c" .
  from scan_u_pair [OF d1 s1(2) t d2 s2(2)]
  have "scanstring (0x5C # 0x75 # ?es) = push_char c (scanstring Y)"
    unfolding r j .
  then show ?thesis
    unfolding s1_def s2_def n_def u_escape_def by simp
qed


lemma escape_char_cases:
  obtains (short) e where "escape_char c = [0x5C, e]" "e \<noteq> 0x75" "BACKSLASH e = Some c"
  | (plain) "escape_char c = [c]" "c \<noteq> 0x22" "c \<noteq> 0x5C" "\<not> c < 0x20"
  | (single) "escape_char c = u_escape c" "c < 0x10000"
  | (pair) "escape_char c = u_escape (0xD800 + (c - 0x10000) div 1024 mod 1024)
                @ u_escape (0xDC00 + (c - 0x10000) mod 1024)" "0x10000 \<le> c"
proof -
  consider "c = 0x5C" | "c = 0x22" | "c = 0x08" | "c = 0x0C" | "c = 0x0A" | "c = 0x0D"
    | "c = 0x09"
    | "c \<notin> {0x5C, 0x22, 0x08, 0x0C, 0x0A, 0x0D, 0x09}" "0x20 \<le> c \<and> c \<le> 0x7E"
    | "c \<notin> {0x5C, 0x22, 0x08, 0x0C, 0x0A, 0x0D, 0x09}" "\<not> (0x20 \<le> c \<and> c \<le> 0x7E)"
      "c < 0x10000"
    | "c \<notin> {0x5C, 0x22, 0x08, 0x0C, 0x0A, 0x0D, 0x09}" "\<not> (0x20 \<le> c \<and> c \<le> 0x7E)"
      "\<not> c < 0x10000"
    by blast
  then show thesis
  proof cases
    case 1
    then have "escape_char c = [0x5C, 0x5C]" "(0x5C :: nat) \<noteq> 0x75" "BACKSLASH 0x5C = Some c"
      by (simp_all add: escape_char_def BACKSLASH_def)
    then show ?thesis by (rule short)
  next
    case 2
    then have "escape_char c = [0x5C, 0x22]" "(0x22 :: nat) \<noteq> 0x75" "BACKSLASH 0x22 = Some c"
      by (simp_all add: escape_char_def BACKSLASH_def)
    then show ?thesis by (rule short)
  next
    case 3
    then have "escape_char c = [0x5C, 0x62]" "(0x62 :: nat) \<noteq> 0x75" "BACKSLASH 0x62 = Some c"
      by (simp_all add: escape_char_def BACKSLASH_def)
    then show ?thesis by (rule short)
  next
    case 4
    then have "escape_char c = [0x5C, 0x66]" "(0x66 :: nat) \<noteq> 0x75" "BACKSLASH 0x66 = Some c"
      by (simp_all add: escape_char_def BACKSLASH_def)
    then show ?thesis by (rule short)
  next
    case 5
    then have "escape_char c = [0x5C, 0x6E]" "(0x6E :: nat) \<noteq> 0x75" "BACKSLASH 0x6E = Some c"
      by (simp_all add: escape_char_def BACKSLASH_def)
    then show ?thesis by (rule short)
  next
    case 6
    then have "escape_char c = [0x5C, 0x72]" "(0x72 :: nat) \<noteq> 0x75" "BACKSLASH 0x72 = Some c"
      by (simp_all add: escape_char_def BACKSLASH_def)
    then show ?thesis by (rule short)
  next
    case 7
    then have "escape_char c = [0x5C, 0x74]" "(0x74 :: nat) \<noteq> 0x75" "BACKSLASH 0x74 = Some c"
      by (simp_all add: escape_char_def BACKSLASH_def)
    then show ?thesis by (rule short)
  next
    case 8
    then have "escape_char c = [c]" "c \<noteq> 0x22" "c \<noteq> 0x5C" "\<not> c < 0x20"
      by (simp_all add: escape_char_def)
    then show ?thesis by (rule plain)
  next
    case 9
    then have "escape_char c = u_escape c" "c < 0x10000"
      by (auto simp add: escape_char_def)
    then show ?thesis by (rule single)
  next
    case 10
    then have "escape_char c = u_escape (0xD800 + (c - 0x10000) div 1024 mod 1024)
                @ u_escape (0xDC00 + (c - 0x10000) mod 1024)" "0x10000 \<le> c"
      by (auto simp add: escape_char_def Let_def)
    then show ?thesis by (rule pair)
  qed
qed

lemma scan_escape_char:
  assumes c: "c < 0x110000" and safe: "is_high_surrogate c \<Longrightarrow> safe_after Y"
  shows "scanstring (escape_char c @ Y) = push_char c (scanstring Y)"
proof (cases c rule: escape_char_cases)
  case (short e)
  then show ?thesis by (simp add: scan_short)
next
  case plain
  then show ?thesis by (simp add: scan_plain)
next
  case single
  with safe show ?thesis by (simp add: scan_u_escape)
next
  case pair
  show ?thesis
    unfolding pair(1) append_assoc by (rule scan_u_escape_pair [OF pair(2) c])
qed

lemma safe_after_quote: "safe_after (0x22 # rest)"
  by (simp add: safe_after_def)

lemma safe_after_escape_char:
  assumes d: "d < 0x110000" and low: "\<not> is_low_surrogate d"
  shows "safe_after (escape_char d @ Z)"
proof (cases d rule: escape_char_cases)
  case (short e)
  then show ?thesis by (simp add: safe_after_def)
next
  case plain
  then show ?thesis by (simp add: safe_after_def)
next
  case single
  then have "decode_uXXXX (drop 2 (escape_char d @ Z)) = Some d"
    by (simp add: u_escape_def decode_hex4)
  with low show ?thesis by (simp add: safe_after_def)
next
  case pair
  let ?s1 = "0xD800 + (d - 0x10000) div 1024 mod 1024"
  have "?s1 < 65536" by simp
  then have "decode_uXXXX (hex4 ?s1 @ u_escape (0xDC00 + (d - 0x10000) mod 1024) @ Z) = Some ?s1"
    by (rule decode_hex4)
  with pair have "decode_uXXXX (drop 2 (escape_char d @ Z)) = Some ?s1"
    by (simp add: u_escape_def)
  moreover have "\<not> is_low_surrogate ?s1"
    by (simp add: is_low_surrogate_def)
  ultimately show ?thesis unfolding safe_after_def by blast
qed

lemma scan_body:
  "valid_str s \<Longrightarrow> no_surrogate_pair s \<Longrightarrow>
   scanstring (concat (map escape_char s) @ 0x22 # rest) = Inr (s, rest)"
proof (induction s)
  case Nil
  show ?case by (simp add: scan_quote)
next
  case (Cons c s)
  from Cons.prems have c: "c < 0x110000" and v: "valid_str s"
    by (simp_all add: valid_str_def)
  from Cons.prems have n: "no_surrogate_pair s"
    by (cases s) simp_all
  have safe: "safe_after (concat (map escape_char s) @ 0x22 # rest)" if "is_high_surrogate c"
  proof (cases s)
    case Nil
    then show ?thesis by (simp add: safe_after_quote)
  next
    case (Cons d s')
    with Cons.prems(2) that have "\<not> is_low_surrogate d" by simp
    moreover from v Cons have "d < 0x110000" by (simp add: valid_str_def)
    ultimately show ?thesis
      using Cons by (simp add: safe_after_escape_char)
  qed
  from scan_escape_char [OF c safe] Cons.IH [OF v n] show ?case
    by simp
qed

lemma scan_encoded:
  "valid_str s \<Longrightarrow> no_surrogate_pair s \<Longrightarrow>
   scanstring (tl (encode_basestring_ascii s) @ rest) = Inr (s, rest)"
  by (simp add: encode_basestring_ascii_def scan_body)

lemma skip_ws_Cons: "\<not> is_ws c \<Longrightarrow> skip_ws (c # cs) = c # cs"
  by (simp add: skip_ws_def)

lemma join_items_starts:
  "xs \<noteq> [] \<Longrightarrow> \<exists>r. join_items (map encode_basestring_ascii xs) = 0x22 # r"
  by (induction xs rule: induct_list012) (simp_all add: encode_basestring_ascii_def)

lemma parse_items_join:
  "xs \<noteq> [] \<Longrightarrow> list_all valid_str xs \<Longrightarrow> list_all no_surrogate_pair xs \<Longrightarrow>
   parse_items (join_items (map encode_basestring_ascii xs) @ 0x5D # rest) = Inr (xs, rest)"
proof (induction xs rule: induct_list012)
  case 1
  then show ?case by simp
next
  case (2 x)
  then have a: "scanstring (tl (encode_basestring_ascii x) @ 0x5D # rest) = Inr (x, 0x5D # rest)"
    by (simp add: scan_encoded)
  have b: "skip_ws (0x5D # rest) = 0x5D # rest"
    by (simp add: skip_ws_Cons is_ws_def)
  have e: "join_items (map encode_basestring_ascii [x]) @ 0x5D # rest
      = 0x22 # tl (encode_basestring_ascii x) @ 0x5D # rest"
    by (simp add: encode_basestring_ascii_def)
  show ?case
    unfolding e by (simp add: a b)
next
  case (3 x y zs)
  define tail where "tail = join_items (map encode_basestring_ascii (y # zs)) @ 0x5D # rest"
  from 3 have ih: "parse_items tail = Inr (y # zs, rest)" by (simp add: tail_def)
  from 3 have a: "scanstring (tl (encode_basestring_ascii x) @ 0x2C # 0x20 # tail)
      = Inr (x, 0x2C # 0x20 # tail)"
    by (simp add: scan_encoded)
  have b: "skip_ws (0x2C # 0x20 # tail) = 0x2C # 0x20 # tail"
    by (simp add: skip_ws_Cons is_ws_def)
  have c: "skip_ws (0x20 # tail) = tail"
  proof -
    from join_items_starts [of "y # zs"]
    obtain r where "join_items (map encode_basestring_ascii (y # zs)) = 0x22 # r" by auto
    then show ?thesis by (simp add: tail_def skip_ws_def is_ws_def)
  qed
  have e: "join_items (map encode_basestring_ascii (x # y # zs)) @ 0x5D # rest
      = 0x22 # tl (encode_basestring_ascii x) @ 0x2C # 0x20 # tail"
    by (simp add: tail_def encode_basestring_ascii_def)
  show ?case
    unfolding e by (simp add: a b c ih)
qed

lemma json_loads_dumps:
  assumes "list_all valid_str xs" and "list_all no_surrogate_pair xs"
  shows "json_loads (json_dumps xs) = Inr xs"
proof (cases "xs = []")
  case True
  then show ?thesis
    by (simp add: json_loads_def json_dumps_def JSONArray_def skip_ws_def is_ws_def)
next
  case False
  let ?body = "join_items (map encode_basestring_ascii xs) @ [0x5D]"
  from join_items_starts [OF False]
  obtain r where r: "join_items (map encode_basestring_ascii xs) = 0x22 # r" by auto
  have p: "parse_items ?body = Inr (xs, [])"
    using parse_items_join [OF False assms, of "[]"] by simp
  have "skip_ws ?body = 0x22 # r @ [0x5D]"
    by (simp add: r skip_ws_def is_ws_def)
  moreover have "parse_items (0x22 # r @ [0x5D]) = Inr (xs, [])"
    using p by (simp add: r)
  ultimately have "JSONArray ?body = Inr (xs, [])"
    unfolding JSONArray_def by simp
  then show ?thesis
    by (simp add: json_loads_def json_dumps_def skip_ws_def is_ws_def)
qed


text \<open>
  Claim C6 (as amended).  For every transaction and every list of strings in which no
  string holds a high surrogate code point immediately followed by a low surrogate code
  point, the \<open>meta\<close> entry of the transaction returned by
  \<open>add_suggested_accounts_to_transaction\<close> under \<open>__suggested_accounts__\<close> parses as
  JSON back to exactly that list.  The witness is the list \<open>["Food", "Rent"]\<close>, stored
  as the text \<open>["Food", "Rent"]\<close>.
\<close>

theorem suggested_accounts_roundtrip:
  assumes "list_all valid_str suggestions" and "list_all no_surrogate_pair suggestions"
  shows "read_suggestions (snd (add_suggested_accounts_to_transaction s t suggestions))
           (fst (add_suggested_accounts_to_transaction s t suggestions))
           METADATA_KEY_SUGGESTED_ACCOUNTS
         = Inr suggestions"
  using json_loads_dumps [OF assms]
  by (simp add: read_suggestions_def add_suggested_accounts_to_transaction_def
      add_suggestions_to_transaction_def Let_def)

theorem suggested_accounts_roundtrip_witness:
  "list_all valid_str [[0x46, 0x6F, 0x6F, 0x64], [0x52, 0x65, 0x6E, 0x74]] \<and>
   list_all no_surrogate_pair [[0x46, 0x6F, 0x6F, 0x64], [0x52, 0x65, 0x6E, 0x74]] \<and>
   json_dumps [[0x46, 0x6F, 0x6F, 0x64], [0x52, 0x65, 0x6E, 0x74]]
     = [0x5B, 0x22, 0x46, 0x6F, 0x6F, 0x64, 0x22, 0x2C, 0x20,
        0x22, 0x52, 0x65, 0x6E, 0x74, 0x22, 0x5D] \<and>
   read_suggestions
     (snd (add_suggested_accounts_to_transaction sample_store (sample_txn 1 None)
        [[0x46, 0x6F, 0x6F, 0x64], [0x52, 0x65, 0x6E, 0x74]]))
     (fst (add_suggested_accounts_to_transaction sample_store (sample_txn 1 None)
        [[0x46, 0x6F, 0x6F, 0x64], [0x52, 0x65, 0x6E, 0x74]]))
     METADATA_KEY_SUGGESTED_ACCOUNTS
   = Inr [[0x46, 0x6F, 0x6F, 0x64], [0x52, 0x65, 0x6E, 0x74]]"
proof -
  have v: "list_all valid_str [[0x46, 0x6F, 0x6F, 0x64], [0x52, 0x65, 0x6E, 0x74]]"
    by (simp add: valid_str_def)
  have n: "list_all no_surrogate_pair [[0x46, 0x6F, 0x6F, 0x64], [0x52, 0x65, 0x6E, 0x74]]"
    by (simp add: is_high_surrogate_def)
  have d: "json_dumps [[0x46, 0x6F, 0x6F, 0x64], [0x52, 0x65, 0x6E, 0x74]]
     = [0x5B, 0x22, 0x46, 0x6F, 0x6F, 0x64, 0x22, 0x2C, 0x20,
        0x22, 0x52, 0x65, 0x6E, 0x74, 0x22, 0x5D]"
    by (simp add: json_dumps_def encode_basestring_ascii_def escape_char_def)
  from suggested_accounts_roundtrip [OF v n, of sample_store "sample_txn 1 None"] v n d
  show ?thesis by blast
qed

text \<open>
  A string of the two code points \<open>U+D83D\<close>, \<open>U+DE00\<close> is written as two escapes,
  which the decoder reads as a surrogate pair: the list comes back holding the one code
  point \<open>U+1F600\<close>.
\<close>

theorem suggested_accounts_surrogates_counterexample:
  "list_all valid_str [[0xD83D, 0xDE00]] \<and>
   json_dumps [[0xD83D, 0xDE00]]
     = [0x5B, 0x22, 0x5C, 0x75, 0x64, 0x38, 0x33, 0x64, 0x5C, 0x75, 0x64, 0x65, 0x30, 0x30,
        0x22, 0x5D] \<and>
   read_suggestions
     (snd (add_suggested_accounts_to_transaction sample_store (sample_txn 1 None)
        [[0xD83D, 0xDE00]]))
     (fst (add_suggested_accounts_to_transaction sample_store (sample_txn 1 None)
        [[0xD83D, 0xDE00]]))
     METADATA_KEY_SUGGESTED_ACCOUNTS
   = Inr [[0x1F600]]"
proof -
  let ?text = "[0x5B, 0x22, 0x5C, 0x75, 0x64, 0x38, 0x33, 0x64, 0x5C, 0x75, 0x64, 0x65, 0x30,
      0x30, 0x22, 0x5D] :: pystr"
  have v: "list_all valid_str [[0xD83D, 0xDE00]]"
    by (simp add: valid_str_def)
  have d: "json_dumps [[0xD83D, 0xDE00]] = ?text"
    by (simp add: json_dumps_def encode_basestring_ascii_def escape_char_def u_escape_def
        hex4_def hexdigit_def)
  have s: "scanstring [0x5C, 0x75, 0x64, 0x38, 0x33, 0x64, 0x5C, 0x75, 0x64, 0x65, 0x30, 0x30,
      0x22, 0x5D] = Inr ([0x1F600], [0x5D])"
    by (simp add: scanstring.simps unhex_def is_high_surrogate_def is_low_surrogate_def
        join_surrogates_def)
  have "json_loads ?text = Inr [[0x1F600]]"
    by (simp add: json_loads_def JSONArray_def skip_ws_def is_ws_def s)
  with v d show ?thesis
    by (simp add: read_suggestions_def add_suggested_accounts_to_transaction_def
        add_suggestions_to_transaction_def Let_def)
qed

end
